theory Spec2Isabelle
  imports
    Complex_Main
    "HOL-Library.Monad_Syntax"
    "HOL-Library.Multiset"
    "HOL-Library.Sublist"
    "HOL-Library.Word"
    "HOL-Library.Signed_Division"
begin

section \<open>The ingestion client: \<^verbatim>\<open>internal/client/transaction.go\<close>\<close>

subsection \<open>Errors and durations\<close>

text \<open>
  Go's \<^verbatim>\<open>error\<close> values that the client package handles or builds. \<open>'e\<close> is the type of
  the errors returned by the methods of \<^verbatim>\<open>GraphClient\<close> (\<^verbatim>\<open>UpdateSchema\<close>,
  \<^verbatim>\<open>DeleteRelations\<close>, ...), which are not part of the sources; \<open>'a\<close> and \<open>'r\<close> are
  \<^verbatim>\<open>knowledge.Asset\<close> and \<^verbatim>\<open>knowledge.Relation\<close>. Every \<^verbatim>\<open>fmt.Errorf\<close> of the file is one
  constructor, carrying the values that are formatted into the message:
  \<^item> \<open>TooManyRetries\<close> is \<^verbatim>\<open>fmt.Errorf("Too many retries... Aborting")\<close>;
  \<^item> \<open>UnableToUpdateSchema err\<close> is
    \<^verbatim>\<open>fmt.Errorf("Unable to update the schema of the graph: %v", err)\<close>;
  \<^item> \<open>UnableToRemoveRelations relations err\<close> is
    \<^verbatim>\<open>fmt.Errorf("Unable to remove the relations %v: %v", relations, err)\<close>;
  \<^item> \<open>UnableToUpsertAssets\<close>, \<open>UnableToRemoveAssets\<close> and \<open>UnableToUpsertRelations\<close>
    likewise.
\<close>

datatype ('e, 'a, 'r) error =
    ClientError 'e
  | TooManyRetries
  | UnableToUpdateSchema "('e, 'a, 'r) error"
  | UnableToRemoveRelations "'r list" "('e, 'a, 'r) error"
  | UnableToUpsertAssets "'a list" "('e, 'a, 'r) error"
  | UnableToRemoveAssets "'a list" "('e, 'a, 'r) error"
  | UnableToUpsertRelations "'r list" "('e, 'a, 'r) error"

text \<open>
  Modelled from the spec: the error kinds of section 7 (the client's own error values
  are not in the sources). The spec names no kind for a transient network error beside
  these; \<open>NetworkError\<close> stands for it.
\<close>

datatype error_kind =
    ConfigError | AuthError | ParseError | PlanError | SchemaViolation | NotFound
  | Conflict | Overload | Timeout | Cancelled | StorageError | Internal | NetworkError

text \<open>\<^verbatim>\<open>time.Duration\<close> counts nanoseconds; \<^verbatim>\<open>time.Second\<close> is \<open>10^9\<close> of them.\<close>

type_synonym Duration = int

definition Second :: Duration where
  "Second = 1000000000"

subsection \<open>The backoff delay\<close>

text \<open>
  \<^verbatim>\<open>math.Pow(1.01, float64(trials))\<close>. The floating-point power is taken as the exact
  rational power: the result is only used after truncation to an integer, and for the
  exponents below 70 the exact value lies between 1 and 1.99, far from the next integer.
\<close>

definition math_Pow :: "rat \<Rightarrow> int \<Rightarrow> rat" where
  "math_Pow x y = x powi y"

text \<open>Go's conversion \<^verbatim>\<open>int(x)\<close> of a floating-point number: the fraction is discarded.\<close>

definition go_int :: "rat \<Rightarrow> int" where
  "go_int x = (if 0 \<le> x then \<lfloor>x\<rfloor> else \<lceil>x\<rceil>)"

text \<open>
  \<^verbatim>\<open>backoffTime := time.Duration(int(math.Pow(1.01, float64(trials)))*15) * time.Second\<close>
\<close>

definition backoffTime :: "int \<Rightarrow> Duration" where
  "backoffTime trials = (go_int (math_Pow (101 / 100) trials) * 15) * Second"

subsection \<open>\<^verbatim>\<open>withRetryOnTooManyRequests\<close>\<close>

text \<open>
  The argument \<^verbatim>\<open>fn func() error\<close> has effects, so its result may change from call to
  call: \<open>fn k\<close> is what the call returns when \<open>k\<close> calls were made before it (\<open>None\<close> is
  \<^verbatim>\<open>nil\<close>). The result records the returned error, how many times \<open>fn\<close> was called
  and the durations passed to \<^verbatim>\<open>time.Sleep\<close>, in order. The loop has no bound of its
  own (with \<open>maxRetries \<le> 0\<close> and a function that always fails it never ends), so it
  is a partial function: \<open>None\<close> is a run that does not return. The
  \<^verbatim>\<open>fmt.Printf("Sleeping for %d seconds\n", ...)\<close> is left out. Go's \<^verbatim>\<open>int\<close> and
  \<^verbatim>\<open>time.Duration\<close> have 64 bits and are taken here as unbounded integers: the counter
  and the delays of the runs considered below stay far from \<open>2^63\<close>.
\<close>

record ('e, 'a, 'r) retry_result =
  returned :: "('e, 'a, 'r) error option"
  calls :: nat
  slept :: "Duration list"

partial_function (option) retry_loop ::
  "(nat \<Rightarrow> ('e, 'a, 'r) error option) \<Rightarrow> int \<Rightarrow> int \<Rightarrow> nat \<Rightarrow> Duration list
     \<Rightarrow> ('e, 'a, 'r) retry_result option"
where
  "retry_loop fn maxRetries trials ncalls sl =
     (case fn ncalls of
        None \<Rightarrow> Some \<lparr>returned = None, calls = Suc ncalls, slept = sl\<rparr>
      | Some err \<Rightarrow>
          (let sl' = sl @ [backoffTime trials];
               trials' = trials + 1
           in if trials' = maxRetries
              then Some \<lparr>returned = Some TooManyRetries, calls = Suc ncalls, slept = sl'\<rparr>
              else retry_loop fn maxRetries trials' (Suc ncalls) sl'))"

declare retry_loop.simps [code]

definition withRetryOnTooManyRequests ::
  "(nat \<Rightarrow> ('e, 'a, 'r) error option) \<Rightarrow> int \<Rightarrow> ('e, 'a, 'r) retry_result option" where
  "withRetryOnTooManyRequests fn maxRetries = retry_loop fn maxRetries 0 0 []"

subsection \<open>The graph, the bulk and the collaborators of \<^verbatim>\<open>Commit\<close>\<close>

text \<open>
  Modelled from the spec: \<^verbatim>\<open>knowledge.Graph\<close> and \<^verbatim>\<open>knowledge.NewGraph\<close>, which are not
  in the sources. Section 3 has the in-memory graph as a set of assets and a set of
  relations; \<^verbatim>\<open>NewGraph()\<close> gives the graph with neither.
\<close>

record ('a, 'r) Graph =
  Assets :: "'a set"
  Relations :: "'r set"

definition NewGraph :: "('a, 'r) Graph" where
  "NewGraph = \<lparr>Assets = {}, Relations = {}\<rparr>"

text \<open>
  Modelled from the spec: the bulk returned by \<^verbatim>\<open>knowledge.GenerateGraphUpdatesBulk\<close>,
  read through its four getters (section 3: four lists of upserts and removals).
\<close>

record ('a, 'r) GraphUpdatesBulk =
  GetAssetUpserts :: "'a list"
  GetAssetRemovals :: "'a list"
  GetRelationUpserts :: "'r list"
  GetRelationRemovals :: "'r list"

text \<open>
  The methods of \<^verbatim>\<open>GraphClient\<close> that \<^verbatim>\<open>Commit\<close> calls are not in the sources: they are
  parameters. \<open>UpdateSchema c sg\<close> is the error of the one schema upload (\<open>None\<close> is
  \<^verbatim>\<open>nil\<close>). A chunk request is called again by the retry helper, so
  \<open>DeleteRelations c relations k\<close> is what the call returns when the closure of that
  chunk was called \<open>k\<close> times before; the other three likewise.
\<close>

record ('s, 'e, 'a, 'r) GraphClient =
  UpdateSchema :: "'s \<Rightarrow> 'e option"
  InsertAssets :: "'a list \<Rightarrow> nat \<Rightarrow> 'e option"
  DeleteAssets :: "'a list \<Rightarrow> nat \<Rightarrow> 'e option"
  InsertRelations :: "'r list \<Rightarrow> nat \<Rightarrow> 'e option"
  DeleteRelations :: "'r list \<Rightarrow> nat \<Rightarrow> 'e option"

text \<open>
  The functions of the packages \<^verbatim>\<open>knowledge\<close> and \<^verbatim>\<open>utils\<close> that \<^verbatim>\<open>Commit\<close> calls, not in
  the sources either and parameters too: \<^verbatim>\<open>Graph.ExtractSchema\<close>,
  \<^verbatim>\<open>GenerateGraphUpdatesBulk\<close>, and \<^verbatim>\<open>utils.ChunkSlice\<close> at its two element types. They
  are taken as functions that return.
\<close>

record ('s, 'a, 'r) packages =
  ExtractSchema :: "('a, 'r) Graph \<Rightarrow> 's"
  GenerateGraphUpdatesBulk :: "('a, 'r) Graph \<Rightarrow> ('a, 'r) Graph \<Rightarrow> ('a, 'r) GraphUpdatesBulk"
  ChunkSliceAssets :: "'a list \<Rightarrow> int \<Rightarrow> 'a list list"
  ChunkSliceRelations :: "'r list \<Rightarrow> int \<Rightarrow> 'r list list"

text \<open>
  The struct \<^verbatim>\<open>Transaction\<close>. The binder and the mutex serve \<^verbatim>\<open>Bind\<close> and \<^verbatim>\<open>Relate\<close>
  only and are left out.
\<close>

record ('s, 'e, 'a, 'r) Transaction =
  client :: "('s, 'e, 'a, 'r) GraphClient"
  currentGraph :: "('a, 'r) Graph"
  newGraph :: "('a, 'r) Graph"
  parallelization :: int
  chunkSize :: int

subsection \<open>The tasks given to the worker pool\<close>

text \<open>
  One task per chunk, of one of four kinds. The task of a chunk runs its request under
  \<^verbatim>\<open>withRetryOnTooManyRequests(..., 10)\<close> and wraps the error of the helper; its result
  is the value that the future returned by \<^verbatim>\<open>p.Exec\<close> delivers. The progress bar is
  left out.
\<close>

datatype ('a, 'r) task =
    RelationRemoval "'r list"
  | AssetUpsert "'a list"
  | AssetRemoval "'a list"
  | RelationUpsert "'r list"

definition chunk_request ::
  "(nat \<Rightarrow> 'e option) \<Rightarrow> (('e, 'a, 'r) error \<Rightarrow> ('e, 'a, 'r) error)
     \<Rightarrow> ('e, 'a, 'r) error option option" where
  "chunk_request call wrap =
     do {
       r \<leftarrow> withRetryOnTooManyRequests (\<lambda>k. map_option ClientError (call k)) 10;
       Some (map_option wrap (returned r))
     }"

fun run_task ::
  "('s, 'e, 'a, 'r) GraphClient \<Rightarrow> ('a, 'r) task \<Rightarrow> ('e, 'a, 'r) error option option" where
  "run_task c (RelationRemoval relations) =
     chunk_request (DeleteRelations c relations) (UnableToRemoveRelations relations)"
| "run_task c (AssetUpsert assets) =
     chunk_request (InsertAssets c assets) (UnableToUpsertAssets assets)"
| "run_task c (AssetRemoval assets) =
     chunk_request (DeleteAssets c assets) (UnableToRemoveAssets assets)"
| "run_task c (RelationUpsert relations) =
     chunk_request (InsertRelations c relations) (UnableToUpsertRelations relations)"

subsection \<open>\<^verbatim>\<open>Transaction.Commit\<close>\<close>

text \<open>
  What the goroutine of \<^verbatim>\<open>Commit\<close> does, in order: the schema upload, the computation
  of the bulk, \<open>Exec i t\<close> for the call of \<^verbatim>\<open>p.Exec\<close> whose future is appended at index
  \<open>i\<close> of \<^verbatim>\<open>futures\<close>, and \<open>Recv i t err\<close> for the receive \<^verbatim>\<open>err := <-f\<close> on that future.
  \<open>Done i t\<close> is the one event of a worker: the task has returned and its error was
  sent on the future. It is no event of \<^verbatim>\<open>Commit\<close> itself and appears in schedules
  only (below).
\<close>

datatype ('s, 'e, 'a, 'r) event =
    SchemaUpload 's
  | BulkComputed
  | Exec nat "('a, 'r) task"
  | Recv nat "('a, 'r) task" "('e, 'a, 'r) error option"
  | Done nat "('a, 'r) task"

text \<open>
  A dispatch loop: every chunk of the list is submitted, and \<^verbatim>\<open>futures\<close> grows by one
  future per chunk. A future is modelled by its index, its task and the error it will
  deliver.
\<close>

type_synonym ('e, 'a, 'r) future = "nat \<times> ('a, 'r) task \<times> ('e, 'a, 'r) error option"

fun exec_all ::
  "('s, 'e, 'a, 'r) GraphClient \<Rightarrow> nat \<Rightarrow> ('a, 'r) task list
     \<Rightarrow> ('e, 'a, 'r) future list option" where
  "exec_all c i [] = Some []"
| "exec_all c i (t # ts) =
     do {
       r \<leftarrow> run_task c t;
       fs \<leftarrow> exec_all c (Suc i) ts;
       Some ((i, t, r) # fs)
     }"

text \<open>
  The loop \<^verbatim>\<open>for _, f := range futures { err := <-f; if err != nil { return nil, err } }\<close>:
  the receives made and the first error met, if any.
\<close>

fun wait_all ::
  "('e, 'a, 'r) future list \<Rightarrow> ('s, 'e, 'a, 'r) event list \<times> ('e, 'a, 'r) error option" where
  "wait_all [] = ([], None)"
| "wait_all ((i, t, r) # fs) =
     (case r of
        Some err \<Rightarrow> ([Recv i t r], Some err)
      | None \<Rightarrow> (case wait_all fs of (evs, e) \<Rightarrow> (Recv i t None # evs, e)))"

definition execs :: "('e, 'a, 'r) future list \<Rightarrow> ('s, 'e, 'a, 'r) event list" where
  "execs fs = map (\<lambda>(i, t, r). Exec i t) fs"

text \<open>The chunks of the two dispatch blocks before the first wait, and of the two after.\<close>

definition phaseA ::
  "('s, 'a, 'r) packages \<Rightarrow> ('s, 'e, 'a, 'r) Transaction \<Rightarrow> ('a, 'r) task list" where
  "phaseA pk cgt =
     (let bulk = GenerateGraphUpdatesBulk pk (currentGraph cgt) (newGraph cgt);
          relationRemovalsChunks = ChunkSliceRelations pk (GetRelationRemovals bulk) (chunkSize cgt);
          assetInsertionChunks = ChunkSliceAssets pk (GetAssetUpserts bulk) (chunkSize cgt)
      in map RelationRemoval relationRemovalsChunks @ map AssetUpsert assetInsertionChunks)"

definition phaseB ::
  "('s, 'a, 'r) packages \<Rightarrow> ('s, 'e, 'a, 'r) Transaction \<Rightarrow> ('a, 'r) task list" where
  "phaseB pk cgt =
     (let bulk = GenerateGraphUpdatesBulk pk (currentGraph cgt) (newGraph cgt);
          relationInsertionChunks = ChunkSliceRelations pk (GetRelationUpserts bulk) (chunkSize cgt);
          assetRemovalsChunks = ChunkSliceAssets pk (GetAssetRemovals bulk) (chunkSize cgt)
      in map AssetRemoval assetRemovalsChunks @ map RelationUpsert relationInsertionChunks)"

text \<open>
  \<^verbatim>\<open>Commit\<close> returns \<^verbatim>\<open>(nil, err)\<close> or \<^verbatim>\<open>(g, nil)\<close>: \<open>Inl err\<close> or \<open>Inr g\<close>. The result also has
  the transaction as the call leaves it and the events of the call. \<open>None\<close> is a call
  that does not return.
\<close>

definition Commit ::
  "('s, 'a, 'r) packages \<Rightarrow> ('s, 'e, 'a, 'r) Transaction
     \<Rightarrow> ((('e, 'a, 'r) error + ('a, 'r) Graph) \<times> ('s, 'e, 'a, 'r) Transaction
          \<times> ('s, 'e, 'a, 'r) event list) option" where
  "Commit pk cgt =
     (let sg = ExtractSchema pk (newGraph cgt) in
      case UpdateSchema (client cgt) sg of
        Some err \<Rightarrow>
          Some (Inl (UnableToUpdateSchema (ClientError err)), cgt, [SchemaUpload sg])
      | None \<Rightarrow>
          do {
            futures \<leftarrow> exec_all (client cgt) 0 (phaseA pk cgt);
            let evA = [SchemaUpload sg, BulkComputed] @ execs futures;
            case wait_all futures of
              (recvA, Some err) \<Rightarrow> Some (Inl err, cgt, evA @ recvA)
            | (recvA, None) \<Rightarrow>
                do {
                  futures \<leftarrow> exec_all (client cgt) 0 (phaseB pk cgt);
                  let evB = evA @ recvA @ execs futures;
                  case wait_all futures of
                    (recvB, Some err) \<Rightarrow> Some (Inl err, cgt, evB @ recvB)
                  | (recvB, None) \<Rightarrow>
                      (let g = newGraph cgt
                       in Some (Inr g, cgt\<lparr>newGraph := NewGraph\<rparr>, evB @ recvB))
                }
          })"

subsection \<open>Schedules of a run of \<^verbatim>\<open>Commit\<close>\<close>

text \<open>
  Modelled from the spec: the worker pool of package \<^verbatim>\<open>utils\<close>, which is not in the
  sources. Section 9 has it as a pool whose submitted tasks each return a one-shot
  completion handle carrying the task's error. Nothing more is assumed of it: a
  schedule is a sequence of the events of \<^verbatim>\<open>Commit\<close> and of the completions \<open>Done\<close> of
  the workers in which a task completes only after it was submitted, and a future is
  received only after its task completed. \<open>causal seen evs\<close> checks the events \<open>evs\<close>
  that follow the events \<open>seen\<close>.
\<close>

fun causal ::
  "('s, 'e, 'a, 'r) event list \<Rightarrow> ('s, 'e, 'a, 'r) event list \<Rightarrow> bool" where
  "causal seen [] = True"
| "causal seen (Done i t # evs) = (Exec i t \<in> set seen \<and> causal (Done i t # seen) evs)"
| "causal seen (Recv i t r # evs) = (Done i t \<in> set seen \<and> causal (Recv i t r # seen) evs)"
| "causal seen (SchemaUpload sg # evs) = causal (SchemaUpload sg # seen) evs"
| "causal seen (BulkComputed # evs) = causal (BulkComputed # seen) evs"
| "causal seen (Exec i t # evs) = causal (Exec i t # seen) evs"

text \<open>The events of a schedule that are \<^verbatim>\<open>Commit\<close>'s own.\<close>

fun main_events :: "('s, 'e, 'a, 'r) event list \<Rightarrow> ('s, 'e, 'a, 'r) event list" where
  "main_events [] = []"
| "main_events (Done i t # evs) = main_events evs"
| "main_events (ev # evs) = ev # main_events evs"

text \<open>The tasks submitted, and the tasks completed, in order.\<close>

fun dispatched :: "('s, 'e, 'a, 'r) event list \<Rightarrow> (nat \<times> ('a, 'r) task) list" where
  "dispatched [] = []"
| "dispatched (Exec i t # evs) = (i, t) # dispatched evs"
| "dispatched (ev # evs) = dispatched evs"

fun completed :: "('s, 'e, 'a, 'r) event list \<Rightarrow> (nat \<times> ('a, 'r) task) list" where
  "completed [] = []"
| "completed (Done i t # evs) = (i, t) # completed evs"
| "completed (ev # evs) = completed evs"

text \<open>The kinds of chunks of the second phase: asset removals and relation upserts.\<close>

fun second_phase :: "('a, 'r) task \<Rightarrow> bool" where
  "second_phase (AssetRemoval assets) = True"
| "second_phase (RelationUpsert relations) = True"
| "second_phase (RelationRemoval relations) = False"
| "second_phase (AssetUpsert assets) = False"

text \<open>The receives of a list of futures, and the completions of a list of tasks.\<close>

definition recvs :: "('e, 'a, 'r) future list \<Rightarrow> ('s, 'e, 'a, 'r) event list" where
  "recvs fs = map (\<lambda>(i, t, r). Recv i t r) fs"

definition dones :: "(nat \<times> ('a, 'r) task) list \<Rightarrow> ('s, 'e, 'a, 'r) event list" where
  "dones ord = map (\<lambda>(i, t). Done i t) ord"

section \<open>The command line: \<^verbatim>\<open>main.go\<close>\<close>

subsection \<open>\<^verbatim>\<open>listen\<close>\<close>

text \<open>
  The configuration is read through \<^verbatim>\<open>viper\<close>, a library outside the repository: its two
  getters are parameters. \<^verbatim>\<open>viper.GetInt64\<close> gives an \<^verbatim>\<open>int64\<close>, and 0 for a key that the
  configuration does not set. \<open>listen\<close> either ends in \<^verbatim>\<open>logrus.Fatal\<close>, when
  \<^verbatim>\<open>Database.InitializeSchema()\<close> fails (its error is the first argument), or calls
  \<^verbatim>\<open>server.StartServer\<close> with the listen interface and the concurrency; the database
  and historizer arguments of that call are left out.
\<close>

record viper =
  GetString :: "string \<Rightarrow> string"
  GetInt64 :: "string \<Rightarrow> 64 word"

datatype 'x listen_result =
    Fatal 'x
  | StartServer string "64 word"

definition listen :: "'x option \<Rightarrow> viper \<Rightarrow> 'x listen_result" where
  "listen InitializeSchema v =
     (case InitializeSchema of
        Some err \<Rightarrow> Fatal err
      | None \<Rightarrow>
          (let listenInterface = GetString v ''server_listen'';
               concurrency = GetInt64 v ''concurrency'';
               concurrency = (if concurrency = 0 then 32 else concurrency)
           in StartServer listenInterface concurrency))"

subsection \<open>\<^verbatim>\<open>queryFunc\<close>\<close>

text \<open>
  \<^verbatim>\<open>context.WithTimeout(context.Background(), 30*time.Second)\<close> is a value of
  \<open>go_context\<close>. The querier of package \<^verbatim>\<open>knowledge\<close> is not in the sources:
  \<^verbatim>\<open>q.Query(ctx, args[0])\<close> is a parameter that gives an error, or a cursor and the
  statistics. The cursor is the list of the results of its successive \<^verbatim>\<open>Read\<close> calls,
  \<^verbatim>\<open>HasMore()\<close> being true while the list is not empty: \<open>ReadError\<close> for an error,
  \<open>ReadSlice\<close> for a row (a \<^verbatim>\<open>[]interface{}\<close>), \<open>ReadOther\<close> for another value, on which
  the type assertion \<^verbatim>\<open>m.([]interface{})\<close> panics. \<^verbatim>\<open>fmt.Sprintf("%v", d)\<close> is the
  parameter \<open>sprint\<close>.

  A run prints lines and ends: \<open>Println ldoc\<close> for \<^verbatim>\<open>fmt.Println(ldoc)\<close>, and
  \<open>Summary n m\<close> for \<^verbatim>\<open>fmt.Printf("%d results found in %fms\n", n, float64(m)/1000.0)\<close>:
  \<open>n\<close> is the value of \<^verbatim>\<open>resultsCount\<close> and \<open>m\<close> the value of
  \<^verbatim>\<open>totalTime.Microseconds()\<close>, the integer that is converted to \<^verbatim>\<open>float64\<close> and divided
  by 1000.0 to be shown in milliseconds. The floating-point conversion, division and
  formatting are not modelled; the line is determined by \<open>n\<close> and \<open>m\<close>.

  \<^verbatim>\<open>time.Duration\<close> is an \<^verbatim>\<open>int64\<close> of nanoseconds and \<^verbatim>\<open>resultsCount\<close> an \<^verbatim>\<open>int\<close> of 64
  bits: both are 64-bit words here, so the sum of the two durations and the counter
  wrap around as in Go. \<^verbatim>\<open>Duration.Microseconds\<close> divides the signed number of
  nanoseconds by 1000 and drops the remainder. The cursor is taken as finite.
\<close>

datatype go_context = Background | WithTimeout go_context Duration

record Statistics =
  Parsing :: "64 word"
  Execution :: "64 word"

datatype ('x, 'v) read =
    ReadError 'x
  | ReadSlice "'v list"
  | ReadOther 'v

datatype 'x ending = Return | LogFatal 'x | Panic

datatype line =
    Println "string list"
  | Summary int int

record ('x) run =
  printed :: "line list"
  ended :: "'x ending"

definition Microseconds :: "64 word \<Rightarrow> int" where
  "Microseconds d = sint d sdiv 1000"

fun read_loop ::
  "('v \<Rightarrow> string) \<Rightarrow> ('x, 'v) read list \<Rightarrow> 64 word \<Rightarrow> line list
     \<Rightarrow> (64 word \<times> line list) + 'x run" where
  "read_loop sprint [] resultsCount out = Inl (resultsCount, out)"
| "read_loop sprint (ReadError err # cursor) resultsCount out =
     Inr \<lparr>printed = out, ended = LogFatal err\<rparr>"
| "read_loop sprint (ReadOther m # cursor) resultsCount out =
     Inr \<lparr>printed = out, ended = Panic\<rparr>"
| "read_loop sprint (ReadSlice doc # cursor) resultsCount out =
     (let ldoc = map sprint doc
      in read_loop sprint cursor (resultsCount + 1) (out @ [Println ldoc]))"

definition queryFunc ::
  "(go_context \<Rightarrow> string \<Rightarrow> 'x + (('x, 'v) read list \<times> Statistics))
     \<Rightarrow> ('v \<Rightarrow> string) \<Rightarrow> string list \<Rightarrow> 'x run" where
  "queryFunc Query sprint args =
     (let ctx = WithTimeout Background (30 * Second) in
      case args of
        [] \<Rightarrow> \<lparr>printed = [], ended = Panic\<rparr>
      | query # rest \<Rightarrow>
          (case Query ctx query of
             Inl err \<Rightarrow> \<lparr>printed = [], ended = LogFatal err\<rparr>
           | Inr (Cursor, stats) \<Rightarrow>
               (case read_loop sprint Cursor 0 [] of
                  Inr stopped \<Rightarrow> stopped
                | Inl (resultsCount, out) \<Rightarrow>
                    (let totalTime = Parsing stats + Execution stats
                     in \<lparr>printed = out @ [Summary (sint resultsCount)
                                            (Microseconds totalTime)],
                         ended = Return\<rparr>))))"

section \<open>The web client: \<^verbatim>\<open>postQuery\<close>\<close>

text \<open>
  \<^verbatim>\<open>axios\<close> is a library outside the repository. Its \<^verbatim>\<open>post\<close> sends the body to the URL
  and resolves with the response when \<^verbatim>\<open>validateStatus\<close> accepts the status; it rejects
  otherwise, and when no response comes. The server is a parameter: the response, if
  any, to a URL and a body. \<open>String\<close> is the conversion of the response data to a
  string that the template literal makes, and \<open>decimal\<close> the one of the status.
  \<open>postQuery\<close> gives the request it sent and how the call ended: the value returned,
  the \<^verbatim>\<open>Error\<close> thrown, or the rejection of \<^verbatim>\<open>axios\<close> passed on by \<^verbatim>\<open>await\<close>.
\<close>

record 'd response =
  status :: nat
  data :: 'd

record body =
  q :: string
  include_data_source :: bool

datatype axios_error = NoResponse | StatusRejected nat

datatype 'd outcome =
    Returned 'd
  | ThrownError string
  | Rejected axios_error

definition axios_post ::
  "(string \<Rightarrow> body \<Rightarrow> 'd response option) \<Rightarrow> string \<Rightarrow> body \<Rightarrow> (nat \<Rightarrow> bool)
     \<Rightarrow> axios_error + 'd response" where
  "axios_post server url b validateStatus =
     (case server url b of
        None \<Rightarrow> Inl NoResponse
      | Some res \<Rightarrow> if validateStatus (status res) then Inr res else Inl (StatusRejected (status res)))"

function decimal :: "nat \<Rightarrow> string" where
  "decimal n = (if n < 10 then [''0123456789'' ! n]
                else decimal (n div 10) @ [''0123456789'' ! (n mod 10)])"
  by pat_completeness auto
termination
  by (relation "measure id") auto

declare decimal.simps [simp del]

definition postQuery ::
  "(string \<Rightarrow> body \<Rightarrow> 'd response option) \<Rightarrow> ('d \<Rightarrow> string) \<Rightarrow> string
     \<Rightarrow> (string \<times> body) \<times> 'd outcome" where
  "postQuery server String query =
     (let url = ''/api/query'';
          b = \<lparr>q = query, include_data_source = True\<rparr>
      in ((url, b),
          (case axios_post server url b (\<lambda>s. s = 200 \<or> s = 500 \<or> s = 400) of
             Inl rejection \<Rightarrow> Rejected rejection
           | Inr res \<Rightarrow>
               if status res \<noteq> 200
               then ThrownError (String (data res) @ '' ('' @ decimal (status res) @ '')'')
               else Returned (data res))))"

section \<open>Example inputs\<close>

text \<open>
  A transaction that replaces asset 2 by asset 3 under asset 1, against a client that
  accepts every request; the same against a client that refuses the schema, and
  against one that answers every asset removal with Overload. Chunks hold one item.
\<close>

definition example_packages :: "(string, nat, nat \<times> nat) packages" where
  "example_packages =
     \<lparr>ExtractSchema = (\<lambda>g. ''schema''),
      GenerateGraphUpdatesBulk = (\<lambda>current new.
        \<lparr>GetAssetUpserts = [3], GetAssetRemovals = [2],
         GetRelationUpserts = [(1, 3)], GetRelationRemovals = [(1, 2)]\<rparr>),
      ChunkSliceAssets = (\<lambda>xs n. map (\<lambda>x. [x]) xs),
      ChunkSliceRelations = (\<lambda>xs n. map (\<lambda>x. [x]) xs)\<rparr>"

definition example_client :: "(string, error_kind, nat, nat \<times> nat) GraphClient" where
  "example_client =
     \<lparr>UpdateSchema = (\<lambda>sg. None),
      InsertAssets = (\<lambda>assets k. None),
      DeleteAssets = (\<lambda>assets k. None),
      InsertRelations = (\<lambda>relations k. None),
      DeleteRelations = (\<lambda>relations k. None)\<rparr>"

definition example_transaction :: "(string, error_kind, nat, nat \<times> nat) Transaction" where
  "example_transaction =
     \<lparr>client = example_client,
      currentGraph = \<lparr>Assets = {1, 2}, Relations = {(1, 2)}\<rparr>,
      newGraph = \<lparr>Assets = {1, 3}, Relations = {(1, 3)}\<rparr>,
      parallelization = 4,
      chunkSize = 1\<rparr>"

definition failing_schema_transaction :: "(string, error_kind, nat, nat \<times> nat) Transaction" where
  "failing_schema_transaction =
     example_transaction\<lparr>client := example_client\<lparr>UpdateSchema := (\<lambda>sg. Some AuthError)\<rparr>\<rparr>"

definition failing_removal_transaction :: "(string, error_kind, nat, nat \<times> nat) Transaction" where
  "failing_removal_transaction =
     example_transaction\<lparr>client := example_client\<lparr>DeleteAssets := (\<lambda>assets k. Some Overload)\<rparr>\<rparr>"

definition example_schedule :: "(string, error_kind, nat, nat \<times> nat) event list" where
  "example_schedule =
     [SchemaUpload ''schema'', BulkComputed,
      Exec 0 (RelationRemoval [(1, 2)]), Done 0 (RelationRemoval [(1, 2)]),
      Exec 1 (AssetUpsert [3]), Done 1 (AssetUpsert [3]),
      Recv 0 (RelationRemoval [(1, 2)]) None, Recv 1 (AssetUpsert [3]) None,
      Exec 0 (AssetRemoval [2]), Exec 1 (RelationUpsert [(1, 3)]),
      Done 1 (RelationUpsert [(1, 3)]), Done 0 (AssetRemoval [2]),
      Recv 0 (AssetRemoval [2]) None, Recv 1 (RelationUpsert [(1, 3)]) None]"

text \<open>A configuration that sets the listen interface, and the integers given.\<close>

definition example_viper :: "(string \<rightharpoonup> 64 word) \<Rightarrow> viper" where
  "example_viper ints =
     \<lparr>GetString = (\<lambda>key. if key = ''server_listen'' then '':8080'' else []),
      GetInt64 = (\<lambda>key. case ints key of None \<Rightarrow> 0 | Some n \<Rightarrow> n)\<rparr>"



definition example_Query ::
  "Statistics \<Rightarrow> go_context \<Rightarrow> string
     \<Rightarrow> string + ((string, string) read list \<times> Statistics)" where
  "example_Query stats ctx query =
     (if ctx = WithTimeout Background (30 * Second)
      then Inr ([ReadSlice [''a''], ReadSlice [''b'']], stats)
      else Inl ''no deadline'')"

text \<open>A server that answers a malformed query with 400 and any other with 200.\<close>

definition example_server :: "string \<Rightarrow> body \<Rightarrow> string response option" where
  "example_server url b =
     (if url = ''/api/query'' \<and> include_data_source b
      then (if q b = ''MATCH'' then Some \<lparr>status = 400, data = ''parse error''\<rparr>
            else Some \<lparr>status = 200, data = ''rows''\<rparr>)
      else None)"

section \<open>Properties of the retry helper\<close>

lemma math_Pow_bounds:
  assumes "0 \<le> t" "t < 70"
  shows "1 \<le> math_Pow (101 / 100) t \<and> math_Pow (101 / 100) t < 2"
proof -
  define n where "n = nat t"
  have t: "t = int n" and n: "n \<le> 69"
    using assms by (simp_all add: n_def)
  have lo: "(1::rat) \<le> (101 / 100) ^ n"
    by (rule one_le_power) simp
  have "((101 / 100)::rat) ^ n \<le> (101 / 100) ^ 69"
    using n by (intro power_increasing) simp_all
  also have "\<dots> < (2::rat)"
    by (simp add: power_divide)
  finally show ?thesis
    using lo by (simp add: math_Pow_def t)
qed

lemma backoffTime_constant:
  assumes "0 \<le> t" "t < 70"
  shows "backoffTime t = 15 * Second"
proof -
  have b: "1 \<le> math_Pow (101 / 100) t" "math_Pow (101 / 100) t < 2"
    using math_Pow_bounds [OF assms] by simp_all
  then have "\<lfloor>math_Pow (101 / 100) t\<rfloor> = 1"
    by (intro floor_unique) simp_all
  with b show ?thesis
    by (simp add: backoffTime_def go_int_def)
qed

text \<open>
  The loop returns whenever the counter starts below a positive \<open>maxRetries\<close>, after at
  most \<open>maxRetries - trials\<close> further calls, with \<^verbatim>\<open>nil\<close> or the abort error.
\<close>

lemma retry_loop_returns:
  assumes "trials < maxRetries"
  shows "\<exists>r. retry_loop fn maxRetries trials n sl = Some r
           \<and> (returned r = None \<or> returned r = Some TooManyRetries)
           \<and> n < calls r \<and> calls r \<le> n + nat (maxRetries - trials)"
  using assms
proof (induction "nat (maxRetries - trials)" arbitrary: trials n sl)
  case 0
  then show ?case by simp
next
  case (Suc d)
  show ?case
  proof (cases "fn n")
    case None
    then show ?thesis
      using Suc.prems by (subst retry_loop.simps) simp
  next
    case (Some e)
    show ?thesis
    proof (cases "trials + 1 = maxRetries")
      case True
      then show ?thesis
        using Some by (subst retry_loop.simps) (simp add: Let_def)
    next
      case False
      then have lt: "trials + 1 < maxRetries" and d: "d = nat (maxRetries - (trials + 1))"
        using Suc.prems Suc.hyps(2) by linarith+
      from Suc.hyps(1) [OF d lt, of "Suc n" "sl @ [backoffTime trials]"]
      obtain r where r: "retry_loop fn maxRetries (trials + 1) (Suc n) (sl @ [backoffTime trials]) = Some r"
        "returned r = None \<or> returned r = Some TooManyRetries"
        "Suc n < calls r" "calls r \<le> Suc n + nat (maxRetries - (trials + 1))"
        by blast
      have "retry_loop fn maxRetries trials n sl = Some r"
        using Some False r(1) by (subst retry_loop.simps) (simp add: Let_def)
      then show ?thesis
        using r(2-4) lt by auto
    qed
  qed
qed

lemma withRetry_returns:
  assumes "0 < maxRetries"
  shows "\<exists>r. withRetryOnTooManyRequests fn maxRetries = Some r
           \<and> (returned r = None \<or> returned r = Some TooManyRetries)"
  using retry_loop_returns [OF assms, of fn 0 "[]"]
  by (auto simp: withRetryOnTooManyRequests_def)

text \<open>
  Under a function that fails at every call the loop makes \<open>maxRetries - trials\<close> calls
  and returns the abort error.
\<close>

lemma retry_loop_all_fail:
  assumes "\<forall>k. fn k \<noteq> None" "trials < maxRetries"
  shows "\<exists>r. retry_loop fn maxRetries trials n sl = Some r
           \<and> returned r = Some TooManyRetries
           \<and> calls r = n + nat (maxRetries - trials)
           \<and> length (slept r) = length sl + nat (maxRetries - trials)"
  using assms(2)
proof (induction "nat (maxRetries - trials)" arbitrary: trials n sl)
  case 0
  then show ?case by simp
next
  case (Suc d)
  obtain e where e: "fn n = Some e"
    using assms(1) by auto
  show ?case
  proof (cases "trials + 1 = maxRetries")
    case True
    then show ?thesis
      using e by (subst retry_loop.simps) (simp add: Let_def)
  next
    case False
    then have lt: "trials + 1 < maxRetries" and d: "d = nat (maxRetries - (trials + 1))"
      using Suc.prems Suc.hyps(2) by linarith+
    from Suc.hyps(1) [OF d lt, of "Suc n" "sl @ [backoffTime trials]"]
    obtain r where r: "retry_loop fn maxRetries (trials + 1) (Suc n) (sl @ [backoffTime trials]) = Some r"
      "returned r = Some TooManyRetries"
      "calls r = Suc n + nat (maxRetries - (trials + 1))"
      "length (slept r) = length (sl @ [backoffTime trials]) + nat (maxRetries - (trials + 1))"
      by blast
    have "retry_loop fn maxRetries trials n sl = Some r"
      using e False r(1) by (subst retry_loop.simps) (simp add: Let_def)
    then show ?thesis
      using r(2-4) lt by auto
  qed
qed

lemma withRetry_all_fail:
  assumes "\<forall>k. fn k \<noteq> None" "0 < maxRetries"
  shows "\<exists>r. withRetryOnTooManyRequests fn maxRetries = Some r
           \<and> returned r = Some TooManyRetries \<and> calls r = nat maxRetries"
  using retry_loop_all_fail [OF assms, of 0 "[]"]
  by (auto simp: withRetryOnTooManyRequests_def)

section \<open>The structure of a run of \<^verbatim>\<open>Commit\<close>\<close>

lemma chunk_request_returns:
  fixes wrap :: "('e, 'a, 'r) error \<Rightarrow> ('e, 'a, 'r) error"
  shows "\<exists>r. chunk_request call wrap = Some r"
proof -
  obtain r where
    "withRetryOnTooManyRequests
       (\<lambda>k. map_option ClientError (call k) :: ('e, 'a, 'r) error option) 10 = Some r"
    using withRetry_returns [of 10] by force
  then show ?thesis
    by (simp add: chunk_request_def)
qed

lemma run_task_returns: "\<exists>r. run_task c t = Some r"
  by (cases t) (simp_all add: chunk_request_returns)

lemma exec_all_returns:
  "\<exists>fs. exec_all c i ts = Some fs \<and> map (\<lambda>(i, t, r). (i, t)) fs = List.enumerate i ts"
proof (induction ts arbitrary: i)
  case Nil
  then show ?case by simp
next
  case (Cons t ts)
  obtain r where r: "run_task c t = Some r"
    using run_task_returns by blast
  obtain fs where fs: "exec_all c (Suc i) ts = Some fs"
    "map (\<lambda>(i, t, r). (i, t)) fs = List.enumerate (Suc i) ts"
    using Cons.IH by blast
  show ?case
    using r fs by simp
qed

lemma exec_all_enumerate:
  "exec_all c i ts = Some fs \<Longrightarrow> map (\<lambda>(i, t, r). (i, t)) fs = List.enumerate i ts"
  using exec_all_returns [of c i ts] by auto

lemma wait_all_recvs:
  fixes evs :: "('s, 'e, 'a, 'r) event list"
  shows "wait_all fs = (evs, e) \<Longrightarrow> \<exists>k \<le> length fs. evs = map (\<lambda>(i, t, r). Recv i t r) (take k fs)"
proof (induction fs arbitrary: evs e rule: wait_all.induct)
  case 1
  then show ?case by simp
next
  case (2 i t r fs)
  show ?case
  proof (cases r)
    case None
    obtain evs' :: "('s, 'e, 'a, 'r) event list" and e' where w: "wait_all fs = (evs', e')"
      by (cases "wait_all fs :: ('s, 'e, 'a, 'r) event list \<times> _")
    with 2 None obtain k where k: "k \<le> length fs" "evs' = map (\<lambda>(i, t, r). Recv i t r) (take k fs)"
      by blast
    have "evs = Recv i t None # evs'"
      using "2.prems" None w by simp
    then show ?thesis
      using k None by (intro exI [of _ "Suc k"]) simp
  next
    case (Some err)
    then show ?thesis
      using "2.prems" by (intro exI [of _ "Suc 0"]) auto
  qed
qed

lemma Commit_cases:
  fixes pk :: "('s, 'a, 'r) packages" and cgt :: "('s, 'e, 'a, 'r) Transaction"
  assumes "Commit pk cgt = Some (res, cgt', tr)"
  shows "(\<exists>e. UpdateSchema (client cgt) (ExtractSchema pk (newGraph cgt)) = Some e
            \<and> res = Inl (UnableToUpdateSchema (ClientError e)) \<and> cgt' = cgt
            \<and> tr = [SchemaUpload (ExtractSchema pk (newGraph cgt))])
       \<or> (\<exists>fA recvA err. UpdateSchema (client cgt) (ExtractSchema pk (newGraph cgt)) = None
            \<and> exec_all (client cgt) 0 (phaseA pk cgt) = Some fA
            \<and> wait_all fA = (recvA, Some err)
            \<and> res = Inl err \<and> cgt' = cgt
            \<and> tr = [SchemaUpload (ExtractSchema pk (newGraph cgt)), BulkComputed] @ execs fA @ recvA)
       \<or> (\<exists>fA recvA fB recvB e. UpdateSchema (client cgt) (ExtractSchema pk (newGraph cgt)) = None
            \<and> exec_all (client cgt) 0 (phaseA pk cgt) = Some fA
            \<and> wait_all fA = (recvA, None)
            \<and> exec_all (client cgt) 0 (phaseB pk cgt) = Some fB
            \<and> wait_all fB = (recvB, e)
            \<and> tr = [SchemaUpload (ExtractSchema pk (newGraph cgt)), BulkComputed]
                    @ execs fA @ recvA @ execs fB @ recvB
            \<and> (case e of
                  Some err \<Rightarrow> res = Inl err \<and> cgt' = cgt
                | None \<Rightarrow> res = Inr (newGraph cgt) \<and> cgt' = cgt\<lparr>newGraph := NewGraph\<rparr>))"
proof (cases "UpdateSchema (client cgt) (ExtractSchema pk (newGraph cgt))")
  case (Some e)
  then show ?thesis
    using assms by (auto simp: Commit_def Let_def)
next
  case None
  obtain fA where fA: "exec_all (client cgt) 0 (phaseA pk cgt) = Some fA"
    using exec_all_returns by blast
  obtain recvA :: "('s, 'e, 'a, 'r) event list" and eA where wA: "wait_all fA = (recvA, eA)"
    by (cases "wait_all fA :: ('s, 'e, 'a, 'r) event list \<times> _")
  show ?thesis
  proof (cases eA)
    case (Some err)
    then show ?thesis
      using assms None fA wA by (auto simp: Commit_def Let_def)
  next
    case eA: None
    obtain fB where fB: "exec_all (client cgt) 0 (phaseB pk cgt) = Some fB"
      using exec_all_returns by blast
    obtain recvB :: "('s, 'e, 'a, 'r) event list" and eB where wB: "wait_all fB = (recvB, eB)"
      by (cases "wait_all fB :: ('s, 'e, 'a, 'r) event list \<times> _")
    have "tr = [SchemaUpload (ExtractSchema pk (newGraph cgt)), BulkComputed]
                 @ execs fA @ recvA @ execs fB @ recvB
          \<and> (case eB of
                Some err \<Rightarrow> res = Inl err \<and> cgt' = cgt
              | None \<Rightarrow> res = Inr (newGraph cgt) \<and> cgt' = cgt\<lparr>newGraph := NewGraph\<rparr>)"
      using assms None fA wA eA fB wB
      by (cases eB) (auto simp: Commit_def Let_def)
    then show ?thesis
      using None fA wA eA fB wB by blast
  qed
qed

lemma Commit_returns: "\<exists>res cgt' tr. Commit pk cgt = Some (res, cgt', tr)"
proof -
  obtain fA where fA: "exec_all (client cgt) 0 (phaseA pk cgt) = Some fA"
    using exec_all_returns by blast
  obtain fB where fB: "exec_all (client cgt) 0 (phaseB pk cgt) = Some fB"
    using exec_all_returns by blast
  show ?thesis
    using fA fB
    by (auto simp: Commit_def Let_def split: option.splits prod.splits)
qed

section \<open>Schedules\<close>

lemma causal_append:
  "causal seen (xs @ ys) \<longleftrightarrow> causal seen xs \<and> causal (rev xs @ seen) ys"
  by (induction seen xs rule: causal.induct) simp_all

lemma causal_recv_done:
  "causal seen xs \<Longrightarrow> Recv i t r \<in> set xs \<Longrightarrow> Done i t \<in> set seen \<union> set xs"
  by (induction seen xs rule: causal.induct) auto

lemma main_events_append [simp]:
  "main_events (xs @ ys) = main_events xs @ main_events ys"
  by (induction xs rule: main_events.induct) simp_all

lemma set_main_events: "set (main_events xs) \<subseteq> set xs"
  by (induction xs rule: main_events.induct) auto

lemma dispatched_append [simp]:
  "dispatched (xs @ ys) = dispatched xs @ dispatched ys"
  by (induction xs rule: dispatched.induct) simp_all

lemma completed_append [simp]:
  "completed (xs @ ys) = completed xs @ completed ys"
  by (induction xs rule: completed.induct) simp_all

lemma dispatched_execs [simp]: "dispatched (execs fs) = map (\<lambda>(i, t, r). (i, t)) fs"
  by (induction fs) (auto simp: execs_def)

lemma main_events_execs [simp]: "main_events (execs fs) = execs fs"
  by (induction fs) (auto simp: execs_def)

lemma completed_execs [simp]: "completed (execs fs) = []"
  by (induction fs) (auto simp: execs_def)

lemma causal_execs [simp]: "causal seen (execs fs) = True"
  by (induction fs arbitrary: seen) (auto simp: execs_def)

lemma dispatched_recvs [simp]: "dispatched (recvs fs) = []"
  by (induction fs) (auto simp: recvs_def)

lemma main_events_recvs [simp]: "main_events (recvs fs) = recvs fs"
  by (induction fs) (auto simp: recvs_def)

lemma completed_recvs [simp]: "completed (recvs fs) = []"
  by (induction fs) (auto simp: recvs_def)

lemma causal_recvs:
  "(\<forall>(i, t, r) \<in> set fs. Done i t \<in> set seen) \<Longrightarrow> causal seen (recvs fs)"
  by (induction fs arbitrary: seen) (auto simp: recvs_def)

lemma main_events_dones [simp]: "main_events (dones ord) = []"
  by (induction ord) (auto simp: dones_def)

lemma completed_dones [simp]: "completed (dones ord) = ord"
  by (induction ord) (auto simp: dones_def)

lemma causal_dones:
  "(\<forall>(i, t) \<in> set ord. Exec i t \<in> set seen) \<Longrightarrow> causal seen (dones ord)"
  by (induction ord arbitrary: seen) (auto simp: dones_def)

lemma set_dones: "set (dones ord) = (\<lambda>(i, t). Done i t) ` set ord"
  by (simp add: dones_def)

lemma set_execs: "set (execs fs) = (\<lambda>(i, t, r). Exec i t) ` set fs"
  by (simp add: execs_def)

lemma wait_all_prefix:
  fixes evs :: "('s, 'e, 'a, 'r) event list"
  shows "wait_all fs = (evs, e) \<Longrightarrow> \<exists>k \<le> length fs. evs = recvs (take k fs)"
  using wait_all_recvs [of fs evs e] by (simp add: recvs_def)

lemma prefix_before_first:
  assumes "xs @ x # ys = ps @ qs" "x \<notin> set ps"
  shows "set ps \<subseteq> set xs"
  using assms
  by (auto simp: append_eq_append_conv2 append_eq_Cons_conv Cons_eq_append_conv)

lemma wait_all_ok:
  fixes evs :: "('s, 'e, 'a, 'r) event list"
  shows "wait_all fs = (evs, None) \<Longrightarrow> evs = recvs fs \<and> (\<forall>(i, t, r) \<in> set fs. r = None)"
  by (induction fs arbitrary: evs rule: wait_all.induct)
     (auto simp: recvs_def split: option.splits prod.splits)

lemma in_main_events:
  "ev \<in> set xs \<Longrightarrow> (\<forall>i t. ev \<noteq> Done i t) \<Longrightarrow> ev \<in> set (main_events xs)"
  by (induction xs rule: main_events.induct) auto

lemma phaseA_first: "t \<in> set (phaseA pk cgt) \<Longrightarrow> \<not> second_phase t"
  by (auto simp: phaseA_def Let_def)

lemma phaseB_second: "t \<in> set (phaseB pk cgt) \<Longrightarrow> second_phase t"
  by (auto simp: phaseB_def Let_def)

lemma enumerate_snd: "(i, t) \<in> set (List.enumerate n xs) \<Longrightarrow> t \<in> set xs"
  by (auto simp: in_set_enumerate_eq)

lemma set_recvs: "set (recvs fs) = (\<lambda>(i, t, r). Recv i t r) ` set fs"
  by (simp add: recvs_def)

lemma exec_in_execs:
  assumes "Exec i b \<in> set (execs fs)" "map (\<lambda>(i, t, r). (i, t)) fs = List.enumerate n ts"
  shows "b \<in> set ts"
proof -
  from assms(1) obtain r where "(i, b, r) \<in> set fs"
    by (auto simp: set_execs)
  then have "(i, b) \<in> set (map (\<lambda>(i, t, r). (i, t)) fs)"
    by force
  then show ?thesis
    using assms(2) enumerate_snd by metis
qed

lemma Commit_dispatch_lists:
  fixes pk :: "('s, 'a, 'r) packages" and cgt :: "('s, 'e, 'a, 'r) Transaction"
  assumes "Commit pk cgt = Some (res, cgt', tr)"
  shows "(UpdateSchema (client cgt) (ExtractSchema pk (newGraph cgt)) \<noteq> None \<longrightarrow>
            dispatched tr = [])
       \<and> (UpdateSchema (client cgt) (ExtractSchema pk (newGraph cgt)) = None \<longrightarrow>
            dispatched tr = List.enumerate 0 (phaseA pk cgt)
            \<or> dispatched tr = List.enumerate 0 (phaseA pk cgt) @ List.enumerate 0 (phaseB pk cgt))
       \<and> (\<forall>g. res = Inr g \<longrightarrow>
            dispatched tr = List.enumerate 0 (phaseA pk cgt) @ List.enumerate 0 (phaseB pk cgt))"
  using Commit_cases [OF assms]
proof (elim disjE exE conjE)
  fix e
  assume "UpdateSchema (client cgt) (ExtractSchema pk (newGraph cgt)) = Some e"
    and "res = Inl (UnableToUpdateSchema (ClientError e))"
    and "tr = [SchemaUpload (ExtractSchema pk (newGraph cgt))]"
  then show ?thesis by simp
next
  fix fA and recvA :: "('s, 'e, 'a, 'r) event list" and err
  assume u: "UpdateSchema (client cgt) (ExtractSchema pk (newGraph cgt)) = None"
    and fA: "exec_all (client cgt) 0 (phaseA pk cgt) = Some fA"
    and wA: "wait_all fA = (recvA, Some err)"
    and res: "res = Inl err"
    and tr: "tr = [SchemaUpload (ExtractSchema pk (newGraph cgt)), BulkComputed] @ execs fA @ recvA"
  obtain k where "recvA = recvs (take k fA)"
    using wait_all_prefix [OF wA] by blast
  then show ?thesis
    using u res tr exec_all_enumerate [OF fA] by simp
next
  fix fA fB and recvA recvB :: "('s, 'e, 'a, 'r) event list" and e
  assume u: "UpdateSchema (client cgt) (ExtractSchema pk (newGraph cgt)) = None"
    and fA: "exec_all (client cgt) 0 (phaseA pk cgt) = Some fA"
    and wA: "wait_all fA = (recvA, None)"
    and fB: "exec_all (client cgt) 0 (phaseB pk cgt) = Some fB"
    and wB: "wait_all fB = (recvB, e)"
    and tr: "tr = [SchemaUpload (ExtractSchema pk (newGraph cgt)), BulkComputed]
                    @ execs fA @ recvA @ execs fB @ recvB"
  obtain k where "recvB = recvs (take k fB)"
    using wait_all_prefix [OF wB] by blast
  moreover have "recvA = recvs fA"
    using wait_all_ok [OF wA] by simp
  ultimately show ?thesis
    using u tr exec_all_enumerate [OF fA] exec_all_enumerate [OF fB] by simp
qed

lemma Commit_barrier:
  fixes pk :: "('s, 'a, 'r) packages" and cgt :: "('s, 'e, 'a, 'r) Transaction"
  assumes run: "Commit pk cgt = Some (res, cgt', tr)"
    and sched: "causal [] sched" "main_events sched = tr"
    and j: "j < length sched" "sched ! j = Exec i b" "second_phase b"
    and ka: "(k, a) \<in> set (List.enumerate 0 (phaseA pk cgt))"
  shows "Recv k a None \<in> set (take j sched) \<and> Done k a \<in> set (take j sched)"
proof -
  have split: "sched = take j sched @ Exec i b # drop (Suc j) sched"
    using j(1,2) id_take_nth_drop by metis
  have in_tr: "Exec i b \<in> set tr"
    using in_main_events [of "Exec i b" sched] j(1,2) sched(2) nth_mem by fastforce
  have causal_take: "causal [] (take j sched)"
    using sched(1) causal_append [of "[]" "take j sched" "drop j sched"] by simp
  from Commit_cases [OF run] show ?thesis
  proof (elim disjE exE conjE)
    fix e
    assume "tr = [SchemaUpload (ExtractSchema pk (newGraph cgt))]"
    then show ?thesis using in_tr by simp
  next
    fix fA and recvA :: "('s, 'e, 'a, 'r) event list" and err
    assume fA: "exec_all (client cgt) 0 (phaseA pk cgt) = Some fA"
      and wA: "wait_all fA = (recvA, Some err)"
      and tr: "tr = [SchemaUpload (ExtractSchema pk (newGraph cgt)), BulkComputed] @ execs fA @ recvA"
    obtain n where "recvA = recvs (take n fA)"
      using wait_all_prefix [OF wA] by blast
    then have "Exec i b \<in> set (execs fA :: ('s, 'e, 'a, 'r) event list)"
      using in_tr tr by (auto simp: set_recvs)
    then have "b \<in> set (phaseA pk cgt)"
      using exec_in_execs exec_all_enumerate [OF fA] by blast
    then show ?thesis
      using phaseA_first j(3) by blast
  next
    fix fA fB and recvA recvB :: "('s, 'e, 'a, 'r) event list" and e
    assume fA: "exec_all (client cgt) 0 (phaseA pk cgt) = Some fA"
      and wA: "wait_all fA = (recvA, None)"
      and tr: "tr = [SchemaUpload (ExtractSchema pk (newGraph cgt)), BulkComputed]
                    @ execs fA @ recvA @ execs fB @ recvB"
    define P :: "('s, 'e, 'a, 'r) event list"
      where "P = [SchemaUpload (ExtractSchema pk (newGraph cgt)), BulkComputed] @ execs fA @ recvA"
    have recvA: "recvA = recvs fA" and oks: "\<forall>(i, t, r) \<in> set fA. r = None"
      using wait_all_ok [OF wA] by simp_all
    have notP: "Exec i b \<notin> set P"
    proof
      assume "Exec i b \<in> set P"
      then have "Exec i b \<in> set (execs fA :: ('s, 'e, 'a, 'r) event list)"
        by (auto simp: P_def recvA set_recvs)
      then have "b \<in> set (phaseA pk cgt)"
        using exec_in_execs exec_all_enumerate [OF fA] by blast
      then show False
        using phaseA_first j(3) by blast
    qed
    have "main_events (take j sched) @ Exec i b # main_events (drop (Suc j) sched)
            = P @ (execs fB @ recvB)"
    proof -
      have "main_events sched
              = main_events (take j sched) @ Exec i b # main_events (drop (Suc j) sched)"
        by (subst split) simp
      then show ?thesis
        using sched(2) tr by (simp add: P_def)
    qed
    from prefix_before_first [OF this notP]
    have sub: "set P \<subseteq> set (take j sched)"
      using set_main_events by blast
    have "(k, a) \<in> set (map (\<lambda>(i, t, r). (i, t)) fA)"
      using ka exec_all_enumerate [OF fA] by simp
    then obtain r where r: "(k, a, r) \<in> set fA"
      by auto
    then have "r = None"
      using oks by auto
    then have "Recv k a None \<in> set P"
      using r by (force simp: P_def recvA set_recvs)
    then have recv: "Recv k a None \<in> set (take j sched)"
      using sub by blast
    then have "Done k a \<in> set (take j sched)"
      using causal_recv_done [OF causal_take] by fastforce
    with recv show ?thesis by simp
  qed
qed

lemma causal_phase:
  fixes seen :: "('s, 'e, 'a, 'r) event list"
  assumes "set ord = set (map (\<lambda>(i, t, r). (i, t)) fs)"
  shows "causal seen (execs fs @ dones ord @ recvs (take n fs))"
proof -
  have 1: "\<forall>(i, t) \<in> set ord. Exec i t \<in> set (rev (execs fs) @ seen)"
    using assms by (force simp: set_execs)
  have 2: "\<forall>(i, t, r) \<in> set (take n fs). Done i t \<in> set (rev (dones ord) @ rev (execs fs) @ seen)"
  proof (clarify)
    fix i t r
    assume "(i, t, r) \<in> set (take n fs)"
    then have "(i, t, r) \<in> set fs"
      by (rule in_set_takeD)
    then have "(i, t) \<in> set ord"
      using assms by force
    then show "Done i t \<in> set (rev (dones ord) @ rev (execs fs) @ seen)"
      by (force simp: set_dones)
  qed
  show ?thesis
    using causal_dones [OF 1] causal_recvs [OF 2]
    by (simp add: causal_append)
qed

lemma filter_first_phaseA:
  "filter (\<lambda>(i, t). \<not> second_phase t) (List.enumerate 0 (phaseA pk cgt)) = List.enumerate 0 (phaseA pk cgt)"
  "filter (\<lambda>(i, t). second_phase t) (List.enumerate 0 (phaseA pk cgt)) = []"
  using phaseA_first [of _ pk cgt]
  by (auto simp: filter_id_conv filter_empty_conv dest: enumerate_snd)

lemma filter_second_phaseB:
  "filter (\<lambda>(i, t). second_phase t) (List.enumerate 0 (phaseB pk cgt)) = List.enumerate 0 (phaseB pk cgt)"
  "filter (\<lambda>(i, t). \<not> second_phase t) (List.enumerate 0 (phaseB pk cgt)) = []"
  using phaseB_second [of _ pk cgt]
  by (auto simp: filter_id_conv filter_empty_conv dest: enumerate_snd)

lemma Commit_any_order:
  fixes pk :: "('s, 'a, 'r) packages" and cgt :: "('s, 'e, 'a, 'r) Transaction"
  assumes run: "Commit pk cgt = Some (res, cgt', tr)"
    and ordA: "mset ordA = mset (filter (\<lambda>(i, t). \<not> second_phase t) (dispatched tr))"
    and ordB: "mset ordB = mset (filter (\<lambda>(i, t). second_phase t) (dispatched tr))"
  shows "\<exists>sched. causal [] sched \<and> main_events sched = tr \<and> completed sched = ordA @ ordB"
  using Commit_cases [OF run]
proof (elim disjE exE conjE)
  fix e
  assume tr: "tr = [SchemaUpload (ExtractSchema pk (newGraph cgt))]"
  then have "ordA = []" "ordB = []"
    using ordA ordB by simp_all
  then show ?thesis
    using tr by (intro exI [of _ tr]) simp
next
  fix fA and recvA :: "('s, 'e, 'a, 'r) event list" and err
  assume fA: "exec_all (client cgt) 0 (phaseA pk cgt) = Some fA"
    and wA: "wait_all fA = (recvA, Some err)"
    and tr: "tr = [SchemaUpload (ExtractSchema pk (newGraph cgt)), BulkComputed] @ execs fA @ recvA"
  obtain n where recvA: "recvA = recvs (take n fA)"
    using wait_all_prefix [OF wA] by blast
  have d: "dispatched tr = List.enumerate 0 (phaseA pk cgt)"
    using tr recvA exec_all_enumerate [OF fA] by simp
  have B: "ordB = []"
    using ordB by (simp add: d filter_first_phaseA)
  have "mset ordA = mset (map (\<lambda>(i, t, r). (i, t)) fA)"
    using ordA by (simp add: d filter_first_phaseA exec_all_enumerate [OF fA])
  then have A: "set ordA = set (map (\<lambda>(i, t, r). (i, t)) fA)"
    by (rule mset_eq_setD)
  define sched :: "('s, 'e, 'a, 'r) event list" where
    "sched = [SchemaUpload (ExtractSchema pk (newGraph cgt)), BulkComputed]
               @ execs fA @ dones ordA @ recvs (take n fA)"
  have "causal [] sched"
    using causal_phase [OF A] by (simp add: sched_def)
  moreover have "main_events sched = tr"
    by (simp add: sched_def tr recvA)
  moreover have "completed sched = ordA @ ordB"
    by (simp add: sched_def B)
  ultimately show ?thesis by blast
next
  fix fA fB and recvA recvB :: "('s, 'e, 'a, 'r) event list" and e
  assume fA: "exec_all (client cgt) 0 (phaseA pk cgt) = Some fA"
    and wA: "wait_all fA = (recvA, None)"
    and fB: "exec_all (client cgt) 0 (phaseB pk cgt) = Some fB"
    and wB: "wait_all fB = (recvB, e)"
    and tr: "tr = [SchemaUpload (ExtractSchema pk (newGraph cgt)), BulkComputed]
                    @ execs fA @ recvA @ execs fB @ recvB"
  obtain n where recvB: "recvB = recvs (take n fB)"
    using wait_all_prefix [OF wB] by blast
  have recvA: "recvA = recvs (take (length fA) fA)"
    using wait_all_ok [OF wA] by simp
  have d: "dispatched tr = List.enumerate 0 (phaseA pk cgt) @ List.enumerate 0 (phaseB pk cgt)"
    using tr recvA recvB exec_all_enumerate [OF fA] exec_all_enumerate [OF fB] by simp
  have "mset ordA = mset (map (\<lambda>(i, t, r). (i, t)) fA)"
    using ordA
    by (simp add: d filter_first_phaseA filter_second_phaseB exec_all_enumerate [OF fA])
  then have A: "set ordA = set (map (\<lambda>(i, t, r). (i, t)) fA)"
    by (rule mset_eq_setD)
  have "mset ordB = mset (map (\<lambda>(i, t, r). (i, t)) fB)"
    using ordB
    by (simp add: d filter_first_phaseA filter_second_phaseB exec_all_enumerate [OF fB])
  then have B: "set ordB = set (map (\<lambda>(i, t, r). (i, t)) fB)"
    by (rule mset_eq_setD)
  define pre :: "('s, 'e, 'a, 'r) event list" where
    "pre = [SchemaUpload (ExtractSchema pk (newGraph cgt)), BulkComputed]"
  define sA :: "('s, 'e, 'a, 'r) event list" where
    "sA = execs fA @ dones ordA @ recvs (take (length fA) fA)"
  define sB :: "('s, 'e, 'a, 'r) event list" where
    "sB = execs fB @ dones ordB @ recvs (take n fB)"
  have "causal [] pre"
    by (simp add: pre_def)
  moreover have "causal (rev pre) sA"
    unfolding sA_def by (rule causal_phase [OF A])
  moreover have "causal (rev sA @ rev pre) sB"
    unfolding sB_def by (rule causal_phase [OF B])
  ultimately have "causal [] (pre @ sA @ sB)"
    by (simp add: causal_append)
  moreover have "main_events (pre @ sA @ sB) = tr"
    using recvA by (simp add: pre_def sA_def sB_def tr recvB)
  moreover have "completed (pre @ sA @ sB) = ordA @ ordB"
    by (simp add: pre_def sA_def sB_def)
  ultimately show ?thesis by blast
qed

section \<open>The example runs\<close>

lemma chunk_request_first_ok:
  fixes wrap :: "('e, 'a, 'r) error \<Rightarrow> ('e, 'a, 'r) error"
  assumes "call 0 = None"
  shows "chunk_request call wrap = Some None"
  using assms
  by (simp add: chunk_request_def withRetryOnTooManyRequests_def retry_loop.simps)

lemma chunk_request_all_fail:
  fixes wrap :: "('e, 'a, 'r) error \<Rightarrow> ('e, 'a, 'r) error"
  assumes "\<forall>k. call k \<noteq> None"
  shows "chunk_request call wrap = Some (Some (wrap TooManyRetries))"
proof -
  have "\<forall>k. map_option (ClientError :: 'e \<Rightarrow> ('e, 'a, 'r) error) (call k) \<noteq> None"
    using assms by simp
  from withRetry_all_fail [OF this, of 10]
  show ?thesis
    by (auto simp: chunk_request_def)
qed

lemma example_run:
  "Commit example_packages example_transaction =
     Some (Inr \<lparr>Assets = {1, 3}, Relations = {(1, 3)}\<rparr>,
           example_transaction\<lparr>newGraph := NewGraph\<rparr>,
           [SchemaUpload ''schema'', BulkComputed,
            Exec 0 (RelationRemoval [(1, 2)]), Exec 1 (AssetUpsert [3]),
            Recv 0 (RelationRemoval [(1, 2)]) None, Recv 1 (AssetUpsert [3]) None,
            Exec 0 (AssetRemoval [2]), Exec 1 (RelationUpsert [(1, 3)]),
            Recv 0 (AssetRemoval [2]) None, Recv 1 (RelationUpsert [(1, 3)]) None])"
  by (simp add: Commit_def example_packages_def example_transaction_def example_client_def
      phaseA_def phaseB_def execs_def chunk_request_first_ok)

lemma failing_removal_run:
  "Commit example_packages failing_removal_transaction =
     Some (Inl (UnableToRemoveAssets [2] TooManyRetries),
           failing_removal_transaction,
           [SchemaUpload ''schema'', BulkComputed,
            Exec 0 (RelationRemoval [(1, 2)]), Exec 1 (AssetUpsert [3]),
            Recv 0 (RelationRemoval [(1, 2)]) None, Recv 1 (AssetUpsert [3]) None,
            Exec 0 (AssetRemoval [2]), Exec 1 (RelationUpsert [(1, 3)]),
            Recv 0 (AssetRemoval [2]) (Some (UnableToRemoveAssets [2] TooManyRetries))])"
  by (simp add: Commit_def example_packages_def example_transaction_def example_client_def
      failing_removal_transaction_def phaseA_def phaseB_def execs_def
      chunk_request_first_ok chunk_request_all_fail)




text \<open>
  The sum of the two durations wraps around: with \<open>2^63 - 1\<close> ns and 1 ns the summary
  has a negative number of microseconds.
\<close>

lemma queryFunc_sum_wraps:
  "printed (queryFunc (example_Query \<lparr>Parsing = 9223372036854775807, Execution = 1\<rparr>) id
       [''MATCH (n:Server) RETURN n.value''])
     = [Println [''a''], Println [''b''], Summary 2 (- 9223372036854775)]"
  by (simp add: queryFunc_def example_Query_def Microseconds_def Let_def signed_divide_int_def)

lemma decimal_400: "decimal 400 = ''400''"
  by code_simp

section \<open>The claims on \<^verbatim>\<open>Commit\<close>\<close>

text \<open>
  C1. A run of \<^verbatim>\<open>Commit\<close> submits nothing, or the chunks of the first two dispatch loops
  (the relation-removal chunks, then the asset-upsert chunks), or these followed by the
  chunks of the last two loops (the asset-removal chunks, then the relation-upsert
  chunks). In every schedule of the run, at the moment a chunk of the second kind is
  submitted, the future of every chunk of the first phase has been received with no
  error, and so its task has completed. Between the chunks of one phase nothing is
  fixed: whatever order is chosen for the completions of the first-phase chunks and
  for those of the second-phase chunks, some schedule of the run completes them in
  that order.
\<close>

theorem Commit_two_phases:
  fixes pk :: "('s, 'a, 'r) packages" and cgt :: "('s, 'e, 'a, 'r) Transaction"
  assumes "Commit pk cgt = Some (res, cgt', tr)"
  shows "((UpdateSchema (client cgt) (ExtractSchema pk (newGraph cgt)) \<noteq> None \<longrightarrow>
             dispatched tr = [])
          \<and> (UpdateSchema (client cgt) (ExtractSchema pk (newGraph cgt)) = None \<longrightarrow>
             dispatched tr = List.enumerate 0 (phaseA pk cgt)
             \<or> dispatched tr = List.enumerate 0 (phaseA pk cgt)
                                  @ List.enumerate 0 (phaseB pk cgt))
          \<and> (\<forall>g. res = Inr g \<longrightarrow>
             dispatched tr = List.enumerate 0 (phaseA pk cgt)
                             @ List.enumerate 0 (phaseB pk cgt)))
       \<and> (\<forall>sched j i b k a.
            causal [] sched \<and> main_events sched = tr
            \<and> j < length sched \<and> sched ! j = Exec i b \<and> second_phase b
            \<and> (k, a) \<in> set (List.enumerate 0 (phaseA pk cgt))
            \<longrightarrow> Recv k a None \<in> set (take j sched) \<and> Done k a \<in> set (take j sched))
       \<and> (\<forall>ordA ordB.
            mset ordA = mset (filter (\<lambda>(i, t). \<not> second_phase t) (dispatched tr))
            \<and> mset ordB = mset (filter (\<lambda>(i, t). second_phase t) (dispatched tr))
            \<longrightarrow> (\<exists>sched. causal [] sched \<and> main_events sched = tr
                    \<and> completed sched = ordA @ ordB))"
  using Commit_dispatch_lists [OF assms] Commit_barrier [OF assms] Commit_any_order [OF assms]
  by blast

theorem Commit_two_phases_witness:
  "Commit example_packages example_transaction =
     Some (Inr \<lparr>Assets = {1, 3}, Relations = {(1, 3)}\<rparr>,
           example_transaction\<lparr>newGraph := NewGraph\<rparr>,
           main_events example_schedule)
   \<and> causal [] example_schedule
   \<and> example_schedule ! 8 = Exec 0 (AssetRemoval [2])
   \<and> Recv 0 (RelationRemoval [(1, 2)]) None \<in> set (take 8 example_schedule)
   \<and> Done 0 (RelationRemoval [(1, 2)]) \<in> set (take 8 example_schedule)
   \<and> Recv 1 (AssetUpsert [3]) None \<in> set (take 8 example_schedule)
   \<and> Done 1 (AssetUpsert [3]) \<in> set (take 8 example_schedule)
   \<and> (\<exists>sched. causal [] sched \<and> main_events sched = main_events example_schedule
         \<and> completed sched =
             [(1, AssetUpsert [3]), (0, RelationRemoval [(1, 2)]),
              (1, RelationUpsert [(1, 3)]), (0, AssetRemoval [2])])"
proof -
  have run: "Commit example_packages example_transaction =
     Some (Inr \<lparr>Assets = {1, 3}, Relations = {(1, 3)}\<rparr>,
           example_transaction\<lparr>newGraph := NewGraph\<rparr>,
           main_events example_schedule)"
    using example_run by (simp add: example_schedule_def)
  note T = Commit_two_phases [OF run]
  have c: "causal [] example_schedule"
    by (simp add: example_schedule_def)
  have n: "8 < length example_schedule" "example_schedule ! 8 = Exec 0 (AssetRemoval [2])"
    by (simp_all add: example_schedule_def)
  have A: "List.enumerate 0 (phaseA example_packages example_transaction)
             = [(0, RelationRemoval [(1, 2)]), (1, AssetUpsert [3])]"
    by (simp add: phaseA_def example_packages_def example_transaction_def)
  have b0: "Recv 0 (RelationRemoval [(1, 2)]) None \<in> set (take 8 example_schedule)
      \<and> Done 0 (RelationRemoval [(1, 2)]) \<in> set (take 8 example_schedule)"
    using T [THEN conjunct2, THEN conjunct1, rule_format,
        of example_schedule 8 0 "AssetRemoval [2]" 0 "RelationRemoval [(1, 2)]"] c n A
    by simp
  have b1: "Recv 1 (AssetUpsert [3]) None \<in> set (take 8 example_schedule)
      \<and> Done 1 (AssetUpsert [3]) \<in> set (take 8 example_schedule)"
    using T [THEN conjunct2, THEN conjunct1, rule_format,
        of example_schedule 8 0 "AssetRemoval [2]" 1 "AssetUpsert [3]"] c n A
    by simp
  have o: "\<exists>sched. causal [] sched \<and> main_events sched = main_events example_schedule
         \<and> completed sched =
             [(1, AssetUpsert [3]), (0, RelationRemoval [(1, 2)])]
             @ [(1, RelationUpsert [(1, 3)]), (0, AssetRemoval [2])]"
    by (rule T [THEN conjunct2, THEN conjunct2, rule_format])
       (simp add: example_schedule_def)
  show ?thesis
    using run c n(2) b0 b1 o by simp
qed

section \<open>The claims on the retry helper\<close>

text \<open>
  C2 (the code departs from the claim). A request function that fails with Overload at
  every call is called ten times by \<^verbatim>\<open>withRetryOnTooManyRequests(fn, 10)\<close>, the call of
  \<^verbatim>\<open>Commit\<close>: the first attempt and nine retries, not ten retries. The abort error is
  returned after the tenth failure, after a tenth sleep.
\<close>

theorem withRetry_persistent_overload_ten_calls:
  "withRetryOnTooManyRequests
     (\<lambda>k. Some (ClientError Overload :: (error_kind, nat, nat) error)) 10
   = Some \<lparr>returned = Some TooManyRetries, calls = 10,
           slept = replicate 10 (15 * Second)\<rparr>"
  by code_simp

text \<open>
  C3 (the code departs from the claim). The power is truncated to an integer before it
  is multiplied by 15 seconds, so the delay after the second failure (\<open>trials = 1\<close>) is
  15 s and not \<open>1.01 * 15 s = 15.15 s\<close>; the same holds at the last retry that \<^verbatim>\<open>Commit\<close>
  reaches (\<open>trials = 9\<close>), where \<open>1.01^9 * 15 s\<close> is more than 16.4 s.
\<close>

theorem backoffTime_truncated:
  "backoffTime 1 = 15 * Second
   \<and> rat_of_int (backoffTime 1) \<noteq> (101 / 100) ^ 1 * 15 * rat_of_int Second
   \<and> backoffTime 9 = 15 * Second
   \<and> rat_of_int (backoffTime 9) < (101 / 100) ^ 9 * 15 * rat_of_int Second"
  by code_simp

text \<open>
  C4 (the code departs from the claim). The helper looks only at \<^verbatim>\<open>err != nil\<close>, never
  at the kind of the error. A request that fails once with a schema violation, which
  is neither Overload nor a network error, is called a second time after a sleep, and
  its error is not returned: the helper returns \<^verbatim>\<open>nil\<close>. When such a request keeps
  failing it is called ten times and the abort error is returned in place of its own.
\<close>

theorem withRetry_retries_any_error:
  "withRetryOnTooManyRequests
     (\<lambda>k. if k = 0 then Some (ClientError SchemaViolation :: (error_kind, nat, nat) error)
          else None) 10
   = Some \<lparr>returned = None, calls = 2, slept = [15 * Second]\<rparr>
   \<and> withRetryOnTooManyRequests
     (\<lambda>k. Some (ClientError SchemaViolation :: (error_kind, nat, nat) error)) 10
   = Some \<lparr>returned = Some TooManyRetries, calls = 10,
           slept = replicate 10 (15 * Second)\<rparr>"
  by code_simp

section \<open>The claims on the transaction's state\<close>

text \<open>
  C5. The first event of every run of \<^verbatim>\<open>Commit\<close> is the upload of the schema extracted
  from \<^verbatim>\<open>newGraph\<close>. When the upload fails, it is the only event: \<^verbatim>\<open>Commit\<close> returns the
  wrapped error without computing the bulk or submitting a chunk, and the transaction
  is as it was.
\<close>

theorem Commit_schema_upload_first:
  fixes pk :: "('s, 'a, 'r) packages" and cgt :: "('s, 'e, 'a, 'r) Transaction"
  shows "(\<exists>res cgt' tr. Commit pk cgt =
            Some (res, cgt', SchemaUpload (ExtractSchema pk (newGraph cgt)) # tr))
       \<and> (\<forall>e. UpdateSchema (client cgt) (ExtractSchema pk (newGraph cgt)) = Some e \<longrightarrow>
            Commit pk cgt =
              Some (Inl (UnableToUpdateSchema (ClientError e)), cgt,
                    [SchemaUpload (ExtractSchema pk (newGraph cgt))]))"
proof
  obtain res cgt' tr where run: "Commit pk cgt = Some (res, cgt', tr)"
    using Commit_returns by blast
  from Commit_cases [OF run]
  have "\<exists>tr'. tr = SchemaUpload (ExtractSchema pk (newGraph cgt)) # tr'"
    by auto
  with run show "\<exists>res cgt' tr. Commit pk cgt =
            Some (res, cgt', SchemaUpload (ExtractSchema pk (newGraph cgt)) # tr)"
    by blast
next
  show "\<forall>e. UpdateSchema (client cgt) (ExtractSchema pk (newGraph cgt)) = Some e \<longrightarrow>
            Commit pk cgt =
              Some (Inl (UnableToUpdateSchema (ClientError e)), cgt,
                    [SchemaUpload (ExtractSchema pk (newGraph cgt))])"
    by (simp add: Commit_def Let_def)
qed

theorem Commit_schema_upload_first_witness:
  "UpdateSchema (client failing_schema_transaction)
     (ExtractSchema example_packages (newGraph failing_schema_transaction)) = Some AuthError
   \<and> Commit example_packages failing_schema_transaction =
       Some (Inl (UnableToUpdateSchema (ClientError AuthError)), failing_schema_transaction,
             [SchemaUpload ''schema''])
   \<and> currentGraph failing_schema_transaction = \<lparr>Assets = {1, 2}, Relations = {(1, 2)}\<rparr>
   \<and> newGraph failing_schema_transaction = \<lparr>Assets = {1, 3}, Relations = {(1, 3)}\<rparr>"
proof -
  have u: "UpdateSchema (client failing_schema_transaction)
     (ExtractSchema example_packages (newGraph failing_schema_transaction)) = Some AuthError"
    by (simp add: failing_schema_transaction_def)
  have s: "ExtractSchema example_packages (newGraph failing_schema_transaction) = ''schema''"
    by (simp add: example_packages_def)
  from Commit_schema_upload_first [of example_packages failing_schema_transaction,
      THEN conjunct2, rule_format, OF u]
  show ?thesis
    using u by (simp add: s) (simp add: failing_schema_transaction_def example_transaction_def)
qed

text \<open>
  C6. When \<^verbatim>\<open>Commit\<close> returns a graph and no error, the graph is the \<^verbatim>\<open>newGraph\<close> the
  transaction had, and the transaction is left with an empty \<^verbatim>\<open>newGraph\<close> and the same
  \<^verbatim>\<open>currentGraph\<close>.
\<close>

theorem Commit_success_gives_newGraph:
  fixes pk :: "('s, 'a, 'r) packages" and cgt :: "('s, 'e, 'a, 'r) Transaction"
  assumes "Commit pk cgt = Some (Inr g, cgt', tr)"
  shows "g = newGraph cgt
       \<and> cgt' = cgt\<lparr>newGraph := NewGraph\<rparr>
       \<and> newGraph cgt' = \<lparr>Assets = {}, Relations = {}\<rparr>
       \<and> currentGraph cgt' = currentGraph cgt"
  using Commit_cases [OF assms]
  by (auto simp: NewGraph_def split: option.splits)

theorem Commit_success_gives_newGraph_witness:
  "(\<exists>tr. Commit example_packages example_transaction =
       Some (Inr \<lparr>Assets = {1, 3}, Relations = {(1, 3)}\<rparr>,
             example_transaction\<lparr>newGraph := NewGraph\<rparr>, tr))
   \<and> \<lparr>Assets = {1, 3}, Relations = {(1, 3)}\<rparr> = newGraph example_transaction
   \<and> newGraph (example_transaction\<lparr>newGraph := NewGraph\<rparr>)
       = (\<lparr>Assets = {}, Relations = {}\<rparr> :: (nat, nat \<times> nat) Graph)
   \<and> currentGraph (example_transaction\<lparr>newGraph := NewGraph\<rparr>)
       = \<lparr>Assets = {1, 2}, Relations = {(1, 2)}\<rparr>"
  using Commit_success_gives_newGraph [OF example_run] example_run
  by (simp add: example_transaction_def)

text \<open>
  C7. When \<^verbatim>\<open>Commit\<close> returns an error, whichever it is, the transaction is unchanged
  (\<^verbatim>\<open>newGraph\<close> and \<^verbatim>\<open>currentGraph\<close> among its fields), so that committing it again is
  the same call.
\<close>

theorem Commit_error_keeps_transaction:
  fixes pk :: "('s, 'a, 'r) packages" and cgt :: "('s, 'e, 'a, 'r) Transaction"
  assumes "Commit pk cgt = Some (Inl err, cgt', tr)"
  shows "cgt' = cgt
       \<and> newGraph cgt' = newGraph cgt
       \<and> currentGraph cgt' = currentGraph cgt
       \<and> Commit pk cgt' = Commit pk cgt"
  using Commit_cases [OF assms]
  by (auto split: option.splits)

theorem Commit_error_keeps_transaction_witness:
  "(\<exists>tr. Commit example_packages failing_removal_transaction =
       Some (Inl (UnableToRemoveAssets [2] TooManyRetries), failing_removal_transaction, tr))
   \<and> newGraph failing_removal_transaction = \<lparr>Assets = {1, 3}, Relations = {(1, 3)}\<rparr>
   \<and> currentGraph failing_removal_transaction = \<lparr>Assets = {1, 2}, Relations = {(1, 2)}\<rparr>"
  using Commit_error_keeps_transaction [OF failing_removal_run] failing_removal_run
  by (simp add: failing_removal_transaction_def example_transaction_def)

section \<open>The claims on the command line\<close>

text \<open>
  C8. When \<^verbatim>\<open>listen\<close> starts the server, the concurrency it passes is the value read from
  the key \<^verbatim>\<open>concurrency\<close> when that value is not zero, and 32 when it is zero, which is
  how an unset key reads.
\<close>

theorem listen_concurrency:
  assumes "listen InitializeSchema v = StartServer listenInterface concurrency"
  shows "(GetInt64 v ''concurrency'' \<noteq> 0 \<longrightarrow> concurrency = GetInt64 v ''concurrency'')
       \<and> (GetInt64 v ''concurrency'' = 0 \<longrightarrow> concurrency = 32)"
  using assms by (auto simp: listen_def Let_def split: option.splits)

theorem listen_concurrency_witness:
  "listen (None :: string option) (example_viper [''concurrency'' \<mapsto> 8]) = StartServer '':8080'' 8
   \<and> GetInt64 (example_viper [''concurrency'' \<mapsto> 8]) ''concurrency'' = 8
   \<and> listen (None :: string option) (example_viper Map.empty) = StartServer '':8080'' 32
   \<and> GetInt64 (example_viper Map.empty) ''concurrency'' = 0"
proof -
  have a: "listen (None :: string option) (example_viper [''concurrency'' \<mapsto> 8])
             = StartServer '':8080'' 8"
    by (simp add: listen_def example_viper_def)
  have b: "listen (None :: string option) (example_viper Map.empty) = StartServer '':8080'' 32"
    by (simp add: listen_def example_viper_def)
  show ?thesis
    using listen_concurrency [OF a] listen_concurrency [OF b] a b
    by (simp add: example_viper_def)
qed




section \<open>The claim on the web client\<close>

text \<open>
  C10. \<^verbatim>\<open>postQuery\<close> always posts the query with \<^verbatim>\<open>include_data_source\<close> set. It returns
  data exactly when the response has status 200, and the data returned is that of the
  response. For a response of status 400 or 500 it throws an error whose message is
  the response data, a space, and the status between parentheses, so it contains
  both.
\<close>

theorem postQuery_outcomes:
  fixes server :: "string \<Rightarrow> body \<Rightarrow> 'd response option"
  shows "fst (postQuery server String query)
           = (''/api/query'', \<lparr>q = query, include_data_source = True\<rparr>)
       \<and> (\<forall>d. snd (postQuery server String query) = Returned d \<longleftrightarrow>
              (\<exists>res. server ''/api/query'' \<lparr>q = query, include_data_source = True\<rparr> = Some res
                   \<and> status res = 200 \<and> data res = d))
       \<and> (\<forall>res. server ''/api/query'' \<lparr>q = query, include_data_source = True\<rparr> = Some res
                \<and> (status res = 400 \<or> status res = 500) \<longrightarrow>
              (\<exists>msg. snd (postQuery server String query) = ThrownError msg
                   \<and> msg = String (data res) @ '' ('' @ decimal (status res) @ '')''
                   \<and> sublist (String (data res)) msg
                   \<and> sublist (decimal (status res)) msg))"
proof (intro conjI allI impI)
  show "fst (postQuery server String query)
           = (''/api/query'', \<lparr>q = query, include_data_source = True\<rparr>)"
    by (simp add: postQuery_def Let_def)
next
  fix d
  show "snd (postQuery server String query) = Returned d \<longleftrightarrow>
              (\<exists>res. server ''/api/query'' \<lparr>q = query, include_data_source = True\<rparr> = Some res
                   \<and> status res = 200 \<and> data res = d)"
    by (auto simp: postQuery_def axios_post_def Let_def split: option.splits)
next
  fix res
  assume r: "server ''/api/query'' \<lparr>q = query, include_data_source = True\<rparr> = Some res
                \<and> (status res = 400 \<or> status res = 500)"
  define msg where "msg = String (data res) @ '' ('' @ decimal (status res) @ '')''"
  have "snd (postQuery server String query) = ThrownError msg"
    using r by (auto simp: postQuery_def axios_post_def Let_def msg_def)
  moreover have "sublist (String (data res)) msg"
    unfolding msg_def by (rule sublist_append_rightI)
  moreover have "sublist (decimal (status res)) msg"
  proof -
    have "msg = (String (data res) @ '' ('') @ decimal (status res) @ '')''"
      by (simp add: msg_def)
    then show ?thesis
      by (metis sublist_appendI)
  qed
  ultimately show "\<exists>msg. snd (postQuery server String query) = ThrownError msg
                   \<and> msg = String (data res) @ '' ('' @ decimal (status res) @ '')''
                   \<and> sublist (String (data res)) msg
                   \<and> sublist (decimal (status res)) msg"
    using msg_def by blast
qed

theorem postQuery_outcomes_witness:
  "postQuery example_server id ''MATCH''
     = ((''/api/query'', \<lparr>q = ''MATCH'', include_data_source = True\<rparr>),
        ThrownError ''parse error (400)'')
   \<and> sublist ''parse error'' ''parse error (400)''
   \<and> sublist ''400'' ''parse error (400)''
   \<and> postQuery example_server id ''MATCH (n) RETURN n''
     = ((''/api/query'', \<lparr>q = ''MATCH (n) RETURN n'', include_data_source = True\<rparr>),
        Returned ''rows'')"
proof -
  note T = postQuery_outcomes [of example_server id "''MATCH''"]
  have s: "example_server ''/api/query'' \<lparr>q = ''MATCH'', include_data_source = True\<rparr>
             = Some \<lparr>status = 400, data = ''parse error''\<rparr>"
    by (simp add: example_server_def)
  from T [THEN conjunct2, THEN conjunct2, rule_format, of "\<lparr>status = 400, data = ''parse error''\<rparr>"] s
  have t: "snd (postQuery example_server id ''MATCH'') = ThrownError ''parse error (400)''"
      "sublist ''parse error'' ''parse error (400)''"
      "sublist ''400'' ''parse error (400)''"
    by (simp_all add: decimal_400)
  have f: "fst (postQuery example_server id ''MATCH'')
             = (''/api/query'', \<lparr>q = ''MATCH'', include_data_source = True\<rparr>)"
    using T by simp
  note U = postQuery_outcomes [of example_server id "''MATCH (n) RETURN n''"]
  have s2: "example_server ''/api/query'' \<lparr>q = ''MATCH (n) RETURN n'', include_data_source = True\<rparr>
             = Some \<lparr>status = 200, data = ''rows''\<rparr>"
    by (simp add: example_server_def)
  have "snd (postQuery example_server id ''MATCH (n) RETURN n'') = Returned ''rows''"
    using U [THEN conjunct2, THEN conjunct1, rule_format, of "''rows''"] s2 by simp
  moreover have "fst (postQuery example_server id ''MATCH (n) RETURN n'')
             = (''/api/query'', \<lparr>q = ''MATCH (n) RETURN n'', include_data_source = True\<rparr>)"
    using U by simp
  ultimately show ?thesis
    using t f by (simp add: prod_eq_iff)
qed

end
